theory Spec2Isabelle
  imports Main "HOL-Library.AList"
begin

section \<open>Python values, dictionaries and errors\<close>

text \<open>
  The functions of \<^verbatim>\<open>thoth/common/openshift.py\<close> verified here work on JSON documents
  decoded into Python dictionaries. The leaves they look at are \<^verbatim>\<open>None\<close>, integers and
  strings. A dictionary keeps its insertion order and has no duplicate key, so it is an
  association list; \<^verbatim>\<open>d[k] = v\<close> is \<^const>\<open>AList.update\<close> (overwrite in place, or append
  a new key at the end).
\<close>

datatype pyval = PNone | PInt int | PStr string

type_synonym pydict = "(string \<times> pyval) list"

datatype error =
    ConfigurationError string
  | NotFoundException
  | HTTPError int
  | RuntimeError
  | KeyError string
  | LookupError
  | AttributeError

fun bind :: "error + 'a \<Rightarrow> ('a \<Rightarrow> error + 'b) \<Rightarrow> error + 'b" where
  "bind (Inl e) f = Inl e"
| "bind (Inr x) f = f x"

text \<open>\<^verbatim>\<open>d[k]\<close> on a dictionary raises \<^verbatim>\<open>KeyError\<close> when the key is missing.\<close>

definition getitem :: "pydict \<Rightarrow> string \<Rightarrow> error + pyval" where
  "getitem d k = (case map_of d k of None \<Rightarrow> Inl (KeyError k) | Some v \<Rightarrow> Inr v)"

text \<open>\<^verbatim>\<open>str(v)\<close>: decimal digits for an integer, \<^verbatim>\<open>"None"\<close> for \<^verbatim>\<open>None\<close>.\<close>

function str_nat :: "nat \<Rightarrow> string" where
  "str_nat n =
     (if n < 10 then [''0123456789'' ! n]
      else str_nat (n div 10) @ [''0123456789'' ! (n mod 10)])"
  by pat_completeness auto
termination
  by (relation "measure (\<lambda>n. n)") auto

declare str_nat.simps [simp del]

definition str_int :: "int \<Rightarrow> string" where
  "str_int i = (if i < 0 then CHR ''-'' # str_nat (nat (- i)) else str_nat (nat i))"

fun str :: "pyval \<Rightarrow> string" where
  "str PNone = ''None''"
| "str (PInt i) = str_int i"
| "str (PStr s) = s"

text \<open>
  A \<^verbatim>\<open>for\<close> loop whose body may raise: the state is threaded through the items in
  order and the first error ends the loop.
\<close>

fun for_each :: "('s \<Rightarrow> 'a \<Rightarrow> error + 's) \<Rightarrow> 'a list \<Rightarrow> 's \<Rightarrow> error + 's" where
  "for_each body [] s = Inr s"
| "for_each body (x # xs) s =
     (case body s x of Inl e \<Rightarrow> Inl e | Inr s' \<Rightarrow> for_each body xs s')"

section \<open>Parameter upsert: \<^verbatim>\<open>_set_env_var\<close> and \<^verbatim>\<open>set_template_parameters\<close>\<close>

text \<open>
  Both functions run the same inner loop over a list of entry dictionaries:
  \<^verbatim>\<open>
    for entry in entries:
        if entry["name"] == name:
            entry["value"] = value
            break
    else: ...
  \<close>
  \<open>assign_first\<close> is that loop. It returns \<open>Some\<close> of the updated list when the
  \<^verbatim>\<open>break\<close> was taken and \<open>None\<close> when the loop ran to its \<^verbatim>\<open>else\<close> branch; an entry
  without a \<^verbatim>\<open>name\<close> key reached before a match raises \<^verbatim>\<open>KeyError\<close>.
\<close>

fun assign_first :: "string \<Rightarrow> pyval \<Rightarrow> pydict list \<Rightarrow> error + pydict list option" where
  "assign_first n v [] = Inr None"
| "assign_first n v (entry # rest) =
     (case map_of entry ''name'' of
        None \<Rightarrow> Inl (KeyError ''name'')
      | Some nm \<Rightarrow>
          if nm = PStr n then Inr (Some (AList.update ''value'' v entry # rest))
          else (case assign_first n v rest of
                  Inl e \<Rightarrow> Inl e
                | Inr None \<Rightarrow> Inr None
                | Inr (Some rest') \<Rightarrow> Inr (Some (entry # rest'))))"

text \<open>
  The pod template of \<^verbatim>\<open>_set_env_var\<close>: \<open>env\<close> is the list found at
  \<^verbatim>\<open>template["spec"]["containers"][0]["env"]\<close>, and \<open>None\<close> when that lookup raises
  (a missing key, or no container). The source then raises \<^verbatim>\<open>KeyError\<close> or
  \<^verbatim>\<open>IndexError\<close>; the model gives their common base class \<^verbatim>\<open>LookupError\<close>, as it
  does for \<^verbatim>\<open>containerStatuses[0]\<close> on an empty list in \<^verbatim>\<open>get_pod_status\<close>.
\<close>

record pod_template =
  env :: "pydict list option"

text \<open>One turn of the outer loop of \<^verbatim>\<open>_set_env_var\<close> (lines 130-138).\<close>

fun set_env_entry :: "pod_template \<Rightarrow> string \<times> pyval \<Rightarrow> error + pod_template" where
  "set_env_entry template (env_var_name, env_var_value) =
     (case env template of
        None \<Rightarrow> Inl LookupError
      | Some entries \<Rightarrow>
          (case assign_first env_var_name env_var_value entries of
             Inl e \<Rightarrow> Inl e
           | Inr (Some entries') \<Rightarrow> Inr (template\<lparr>env := Some entries'\<rparr>)
           | Inr None \<Rightarrow>
               Inr (template\<lparr>env := Some (entries @
                 [[(''name'', PStr env_var_name), (''value'', PStr (str env_var_value))]])\<rparr>)))"

definition set_env_var :: "pod_template \<Rightarrow> (string \<times> pyval) list \<Rightarrow> error + pod_template" where
  "set_env_var template env_var = for_each set_env_entry env_var template"

text \<open>
  The template of \<^verbatim>\<open>set_template_parameters\<close>: \<open>metadata\<close> is \<^verbatim>\<open>template["metadata"]\<close>
  (read for the debug message) and \<open>parameters\<close> is \<^verbatim>\<open>template["parameters"]\<close>; each is
  \<open>None\<close> when the key is absent.
\<close>

record template =
  metadata :: "pydict option"
  parameters :: "pydict list option"

text \<open>\<^verbatim>\<open>str(parameter_value) if parameter_value is not None else ""\<close>\<close>

definition parameter_str :: "pyval \<Rightarrow> pyval" where
  "parameter_str parameter_value =
     (if parameter_value \<noteq> PNone then PStr (str parameter_value) else PStr '''')"

text \<open>One turn of the outer loop of \<^verbatim>\<open>set_template_parameters\<close> (lines 155-176).\<close>

fun set_parameter :: "pydict list \<Rightarrow> string \<times> pyval \<Rightarrow> error + pydict list" where
  "set_parameter entries (parameter_name, parameter_value) =
     (case assign_first parameter_name (parameter_str parameter_value) entries of
        Inl e \<Rightarrow> Inl e
      | Inr (Some entries') \<Rightarrow> Inr entries'
      | Inr None \<Rightarrow>
          Inr (entries @
            [[(''name'', PStr parameter_name), (''value'', parameter_str parameter_value)]]))"

definition set_template_parameters ::
  "template \<Rightarrow> (string \<times> pyval) list \<Rightarrow> error + template" where
  "set_template_parameters t params =
     (case metadata t of
        None \<Rightarrow> Inl (KeyError ''metadata'')
      | Some m \<Rightarrow>
          (case getitem m ''name'' of
             Inl e \<Rightarrow> Inl e
           | Inr _ \<Rightarrow>
               (case for_each set_parameter params
                       (case parameters t of None \<Rightarrow> [] | Some entries \<Rightarrow> entries) of
                  Inl e \<Rightarrow> Inl e
                | Inr entries' \<Rightarrow> Inr (t\<lparr>parameters := Some entries'\<rparr>))))"

text \<open>
  Vocabulary for the properties of the upsert. An entry is \<open>named n\<close> when its
  \<^verbatim>\<open>name\<close> field is the string \<open>n\<close>; \<open>new_entry n v\<close> is the dictionary
  \<^verbatim>\<open>{"name": n, "value": v}\<close> both functions append; \<open>touched f ps e e'\<close> says that
  \<open>e'\<close> is the entry \<open>e\<close> itself, or \<open>e\<close> with its \<^verbatim>\<open>value\<close> field assigned
  \<open>f v\<close> for a pair \<open>(n, v)\<close> of the mapping \<open>ps\<close> whose name is the name of \<open>e\<close>.
\<close>

definition named :: "string \<Rightarrow> pydict \<Rightarrow> bool" where
  "named n entry = (map_of entry ''name'' = Some (PStr n))"

definition has_name :: "pydict \<Rightarrow> bool" where
  "has_name entry = (map_of entry ''name'' \<noteq> None)"

definition new_entry :: "string \<Rightarrow> pyval \<Rightarrow> pydict" where
  "new_entry n v = [(''name'', PStr n), (''value'', v)]"

definition touched ::
  "(pyval \<Rightarrow> pyval) \<Rightarrow> (string \<times> pyval) list \<Rightarrow> pydict \<Rightarrow> pydict \<Rightarrow> bool" where
  "touched f ps e e' =
     (e' = e \<or> (\<exists>(n, v) \<in> set ps. named n e \<and> e' = AList.update ''value'' (f v) e))"

text \<open>
  The two outer loops differ only in the value they assign (\<open>f\<close>) and the value they
  append (\<open>g\<close>); \<open>upsert f g\<close> is their common shape, used in the proofs below.
\<close>

fun upsert ::
  "(pyval \<Rightarrow> pyval) \<Rightarrow> (pyval \<Rightarrow> pyval) \<Rightarrow> pydict list \<Rightarrow> string \<times> pyval
     \<Rightarrow> error + pydict list" where
  "upsert f g entries (n, v) =
     (case assign_first n (f v) entries of
        Inl e \<Rightarrow> Inl e
      | Inr (Some entries') \<Rightarrow> Inr entries'
      | Inr None \<Rightarrow> Inr (entries @ [new_entry n (g v)]))"

section \<open>Status normalizer: \<^verbatim>\<open>get_pod_status\<close> and \<^verbatim>\<open>_status_report\<close>\<close>

text \<open>
  A container state is a dictionary from a lifecycle state (\<^verbatim>\<open>waiting\<close>, \<^verbatim>\<open>running\<close>,
  \<^verbatim>\<open>terminated\<close>) to the dictionary of its fields.
\<close>

type_synonym status = "(string \<times> pydict) list"

definition TRANSLATION_TABLE :: "(string \<times> string) list" where
  "TRANSLATION_TABLE =
     [(''exitCode'', ''exit_code''),
      (''finishedAt'', ''finished_at''),
      (''reason'', ''reason''),
      (''startedAt'', ''started_at''),
      (''containerID'', ''container''),
      (''message'', ''reason'')]"

text \<open>\<^verbatim>\<open>dict.fromkeys(keys)\<close>: every key bound to \<^verbatim>\<open>None\<close>, a repeated key kept once.\<close>

definition fromkeys :: "string list \<Rightarrow> pydict" where
  "fromkeys ks = fold (\<lambda>k d. AList.update k PNone d) ks []"

definition startswith :: "string \<Rightarrow> string \<Rightarrow> bool" where
  "startswith s p = (take (length p) s = p)"

text \<open>
  The body of the loop of \<^verbatim>\<open>_status_report\<close> (lines 396-405). \<^verbatim>\<open>value.startswith\<close>
  exists on strings only, and \<^verbatim>\<open>_TRANSLATION_TABLE[key]\<close> raises \<^verbatim>\<open>KeyError\<close> on a key
  the table does not have.
\<close>

fun report_item :: "pydict \<Rightarrow> string \<times> pyval \<Rightarrow> error + pydict" where
  "report_item reported_status (key, val) =
     (if key = ''containerID'' then
        (case val of
           PStr s \<Rightarrow>
             Inr (AList.update ''container''
                    (PStr (if startswith s ''docker://'' then drop (length ''docker://'') s else s))
                    reported_status)
         | _ \<Rightarrow> Inl AttributeError)
      else
        (case map_of TRANSLATION_TABLE key of
           None \<Rightarrow> Inl (KeyError key)
         | Some field \<Rightarrow> Inr (AList.update field val reported_status)))"

definition status_report :: "status \<Rightarrow> error + pydict" where
  "status_report status =
     (if length (map fst status) \<noteq> 1 then
        Inr (AList.update ''state'' (PStr ''scheduling'')
               (fromkeys (map snd TRANSLATION_TABLE)))
      else
        (let state = hd (map fst status) in
         case map_of status state of
           None \<Rightarrow> Inl (KeyError state)
         | Some items \<Rightarrow>
             for_each report_item items
               (AList.update ''state'' (PStr state) (fromkeys (map snd TRANSLATION_TABLE)))))"

text \<open>
  What the cluster answers to the pod lookup of \<^verbatim>\<open>get_pod_status\<close>: the client raises
  \<^verbatim>\<open>NotFoundError\<close>, or returns the pod. Of the pod only
  \<^verbatim>\<open>response["status"]["containerStatuses"]\<close> is read: \<open>Pod None\<close> when that key is
  absent, else \<open>Pod (Some cs)\<close> with the \<^verbatim>\<open>state\<close> of each container status in order.
\<close>

datatype pod_response = NotFoundError | Pod "status list option"

definition get_pod_status :: "pod_response \<Rightarrow> error + status" where
  "get_pod_status response =
     (case response of
        NotFoundError \<Rightarrow> Inl NotFoundException
      | Pod None \<Rightarrow> Inr []
      | Pod (Some []) \<Rightarrow> Inl LookupError
      | Pod (Some (state # _)) \<Rightarrow>
          (if (case map_of state ''terminated'' of
                 None \<Rightarrow> None
               | Some terminated \<Rightarrow> map_of terminated ''exitCode'') = Some (PInt 137)
           then
             (case map_of state ''terminated'' of
                None \<Rightarrow> Inl (KeyError ''terminated'')
              | Some terminated \<Rightarrow>
                  (case map_of terminated ''reason'' of
                     None \<Rightarrow> Inl (KeyError ''reason'')
                   | Some reason \<Rightarrow>
                       if reason = PStr ''Error'' then
                         Inr (AList.update ''terminated''
                                (AList.update ''reason'' (PStr ''TimeoutKilled'') terminated)
                                state)
                       else Inr state))
           else Inr state))"

definition get_pod_status_report :: "pod_response \<Rightarrow> error + pydict" where
  "get_pod_status_report response = bind (get_pod_status response) status_report"

text \<open>
  Vocabulary for the properties of the normalizer: the nested field names the
  translation table knows, the inputs whose \<^verbatim>\<open>containerID\<close> is a string (the only
  values \<^verbatim>\<open>startswith\<close> is defined on), and the keys of a report.
\<close>

definition known_key :: "string \<Rightarrow> bool" where
  "known_key k = (map_of TRANSLATION_TABLE k \<noteq> None)"

fun is_str :: "pyval \<Rightarrow> bool" where
  "is_str (PStr s) = True"
| "is_str v = False"

definition container_is_str :: "pydict \<Rightarrow> bool" where
  "container_is_str items = list_all (\<lambda>(k, v). k = ''containerID'' \<longrightarrow> is_str v) items"

definition REPORT_KEYS :: "string set" where
  "REPORT_KEYS =
     {''state'', ''exit_code'', ''reason'', ''started_at'', ''finished_at'', ''container''}"

section \<open>Cluster operations: namespace checks and HTTP status translation\<close>

text \<open>
  The namespace attributes of the \<^verbatim>\<open>OpenShift\<close> object; \<open>None\<close> is Python's
  \<^verbatim>\<open>None\<close>. \<^verbatim>\<open>not self.x\<close> holds for \<^verbatim>\<open>None\<close> and for the empty string.
\<close>

record openshift =
  amun_inspection_namespace :: "string option"
  frontend_namespace :: "string option"
  middletier_namespace :: "string option"
  backend_namespace :: "string option"
  infra_namespace :: "string option"
  kubernetes_api_url :: string

definition truthy :: "string option \<Rightarrow> bool" where
  "truthy x = (case x of None \<Rightarrow> False | Some s \<Rightarrow> s \<noteq> [])"

text \<open>
  The requests an operation sends to the cluster: a lookup through the dynamic client
  (kind, namespace, name or label selector) and the creation of an object (kind,
  namespace, name). The first thing an operation does that its caller can observe is
  either to raise or to send a request.
\<close>

datatype request =
    Get string "string option" string
  | Create string "string option" string

datatype effect = Raises error | Calls request

definition run_sync :: "openshift \<Rightarrow> effect" where
  "run_sync self =
     (if \<not> truthy (frontend_namespace self) then
        Raises (ConfigurationError ''Graph sync requires frontend namespace configuration'')
      else Calls (Get ''CronJob'' (frontend_namespace self) ''graph-sync''))"

definition create_inspection_imagestream :: "openshift \<Rightarrow> effect" where
  "create_inspection_imagestream self =
     (if \<not> truthy (infra_namespace self) then
        Raises (ConfigurationError
          ''Infra namespace is required in order to create inspect imagestreams'')
      else if \<not> truthy (amun_inspection_namespace self) then
        Raises (ConfigurationError
          ''Unable to create inspection image stream without Amun inspection namespace being set'')
      else Calls (Get ''Template'' (infra_namespace self) ''template=amun-inspect-imagestream''))"

definition create_inspection_buildconfig :: "openshift \<Rightarrow> bool \<Rightarrow> effect" where
  "create_inspection_buildconfig self use_hw_template =
     (if \<not> truthy (infra_namespace self) then
        Raises (ConfigurationError
          ''Infra namespace is required in order to create inspect imagestreams'')
      else if \<not> truthy (amun_inspection_namespace self) then
        Raises (ConfigurationError
          ''Unable to create inspection buildconfig without Amun inspection namespace being set'')
      else Calls (Get ''Template'' (infra_namespace self)
             (if use_hw_template then ''template=amun-inspect-buildconfig-with-cpu''
              else ''template=amun-inspect-buildconfig'')))"

definition schedule_inspection_job :: "openshift \<Rightarrow> string \<Rightarrow> effect" where
  "schedule_inspection_job self inspection_id =
     (if \<not> truthy (amun_inspection_namespace self) then
        Raises (ConfigurationError
          ''Unable to schedule inspection job without Amun inspection namespace being set'')
      else Calls (Create ''ConfigMap'' (amun_inspection_namespace self) inspection_id))"

definition run_inspection_job :: "openshift \<Rightarrow> bool \<Rightarrow> effect" where
  "run_inspection_job self use_hw_template =
     (if \<not> truthy (infra_namespace self) then
        Raises (ConfigurationError
          ''Infra namespace is required in order to create inspect imagestreams'')
      else if \<not> truthy (amun_inspection_namespace self) then
        Raises (ConfigurationError
          ''Unable to create inspection job without Amun inspection namespace being set'')
      else Calls (Get ''Template'' (infra_namespace self)
             (if use_hw_template then ''template=amun-inspect-job-with-cpu''
              else ''template=amun-inspect-job'')))"

text \<open>
  \<^verbatim>\<open>run_solver\<close>, lines 637-647. Line 638 builds the exception and drops it: the
  statement is \<^verbatim>\<open>ConfigurationError("...")\<close>, with no \<^verbatim>\<open>raise\<close>, so both branches of
  the first test go on to the second.
\<close>

definition run_solver :: "openshift \<Rightarrow> effect" where
  "run_solver self =
     (let dropped =
            (if \<not> truthy (middletier_namespace self) then
               Some (ConfigurationError ''Solver requires middletier namespace to be specified'')
             else None)
      in if \<not> truthy (infra_namespace self) then
           Raises (ConfigurationError
             ''Infra namespace is required to gather solver template when running solver'')
         else Calls (Get ''Template'' (infra_namespace self) ''template=solver''))"

definition run_package_extract :: "openshift \<Rightarrow> effect" where
  "run_package_extract self =
     (if \<not> truthy (middletier_namespace self) then
        Raises (ConfigurationError
          ''Running package-extract requires middletier namespace to be specified'')
      else if \<not> truthy (infra_namespace self) then
        Raises (ConfigurationError
          ''Infra namespace is required to gather package-extract template when running it'')
      else Calls (Get ''Template'' (infra_namespace self) ''template=package-extract''))"

definition schedule_dependency_monkey :: "openshift \<Rightarrow> string \<Rightarrow> effect" where
  "schedule_dependency_monkey self job_id =
     (if \<not> truthy (middletier_namespace self) then
        Raises (ConfigurationError
          ''Unable to schedule dependency monkey without middletier namespace being set'')
      else Calls (Create ''ConfigMap'' (middletier_namespace self) job_id))"

definition run_dependency_monkey :: "openshift \<Rightarrow> effect" where
  "run_dependency_monkey self =
     (if \<not> truthy (middletier_namespace self) then
        Raises (ConfigurationError
          ''Running Dependency Monkey requires middletier namespace configuration'')
      else if \<not> truthy (infra_namespace self) then
        Raises (ConfigurationError
          ''Infra namespace is required to gather Dependency Monkey template when running it'')
      else Calls (Get ''Template'' (infra_namespace self) ''template=dependency-monkey''))"

definition schedule_adviser :: "openshift \<Rightarrow> string \<Rightarrow> effect" where
  "schedule_adviser self job_id =
     (if \<not> truthy (backend_namespace self) then
        Raises (ConfigurationError
          ''Unable to schedule adviser without backend namespace being set'')
      else Calls (Create ''ConfigMap'' (backend_namespace self) job_id))"

definition run_adviser :: "openshift \<Rightarrow> effect" where
  "run_adviser self =
     (if \<not> truthy (backend_namespace self) then
        Raises (ConfigurationError ''Running adviser requires backend namespace configuration'')
      else if \<not> truthy (infra_namespace self) then
        Raises (ConfigurationError
          ''Infra namespace is required to gather adviser template when running it'')
      else Calls (Get ''Template'' (infra_namespace self) ''template=adviser''))"

definition schedule_provenance_checker :: "openshift \<Rightarrow> string \<Rightarrow> effect" where
  "schedule_provenance_checker self job_id =
     (if \<not> truthy (backend_namespace self) then
        Raises (ConfigurationError
          ''Unable to schedule provenance checker without backend namespace being set'')
      else Calls (Create ''ConfigMap'' (backend_namespace self) job_id))"

definition run_provenance_checker :: "openshift \<Rightarrow> effect" where
  "run_provenance_checker self =
     (if \<not> truthy (backend_namespace self) then
        Raises (ConfigurationError
          ''Running provenance checks requires backend namespace configuration'')
      else if \<not> truthy (infra_namespace self) then
        Raises (ConfigurationError
          ''Infra namespace is required to gather provenance template when running it'')
      else Calls (Get ''Template'' (infra_namespace self) ''template=provenance-checker''))"

text \<open>
  \<^verbatim>\<open>get_pod_log\<close> in full. \<open>http_get\<close> stands for the cluster: it answers the request
  sent to an endpoint with a status code and a body. \<^verbatim>\<open>Response.raise_for_status\<close> of
  the \<^verbatim>\<open>requests\<close> library raises \<^verbatim>\<open>HTTPError\<close> for the client and server error
  codes, 400 to 599, and returns for every other code.
\<close>

record response =
  status_code :: int
  text_of :: string

definition raise_for_status :: "response \<Rightarrow> error + unit" where
  "raise_for_status r =
     (if 400 \<le> status_code r \<and> status_code r < 600 then Inl (HTTPError (status_code r))
      else Inr ())"

text \<open>
  The endpoint of the pod log:
  \<^verbatim>\<open>"{}/api/v1/namespaces/{}/pods/{}/log".format(self.kubernetes_api_url, namespace, pod_id)\<close>.
\<close>

definition pod_log_endpoint :: "openshift \<Rightarrow> string option \<Rightarrow> string \<Rightarrow> string" where
  "pod_log_endpoint self namespace pod_id =
     kubernetes_api_url self @ ''/api/v1/namespaces/'' @
     (case namespace of None \<Rightarrow> ''None'' | Some ns \<Rightarrow> ns) @ ''/pods/'' @ pod_id @ ''/log''"

definition get_pod_log ::
  "openshift \<Rightarrow> (string \<Rightarrow> response) \<Rightarrow> string \<Rightarrow> string option \<Rightarrow> error + string option" where
  "get_pod_log self http_get pod_id namespace =
     (if \<not> truthy namespace \<and> \<not> truthy (middletier_namespace self) then
        Inl (ConfigurationError
          ''Middletier namespace is required to check log of pods run in this namespace'')
      else
        (let namespace' = (if \<not> truthy namespace then middletier_namespace self else namespace);
             response = http_get (pod_log_endpoint self namespace' pod_id)
         in if status_code response = 404 then Inl NotFoundException
            else if status_code response = 400 then Inr None
            else (case raise_for_status response of
                    Inl e \<Rightarrow> Inl e
                  | Inr _ \<Rightarrow> Inr (Some (text_of response)))))"

text \<open>A cluster that answers every request with the same response.\<close>

definition answering :: "response \<Rightarrow> string \<Rightarrow> response" where
  "answering r endpoint = r"

text \<open>Applying an upsert a second time to the template the first application left.\<close>

definition set_env_var_twice ::
  "pod_template \<Rightarrow> (string \<times> pyval) list \<Rightarrow> error + pod_template" where
  "set_env_var_twice t env_var = bind (set_env_var t env_var) (\<lambda>t'. set_env_var t' env_var)"

definition set_template_parameters_twice ::
  "template \<Rightarrow> (string \<times> pyval) list \<Rightarrow> error + template" where
  "set_template_parameters_twice t params =
     bind (set_template_parameters t params) (\<lambda>t'. set_template_parameters t' params)"

section \<open>Namespace checks\<close>

text \<open>
  C1. Every run or schedule operation that needs a namespace raises
  \<^verbatim>\<open>ConfigurationError\<close> before any request is sent when that namespace is not set.
  \<^verbatim>\<open>run_solver\<close> does not: with the middletier namespace unset and the infra namespace set,
  its first effect is the request for the solver template.
\<close>

theorem run_solver_missing_raise:
  "run_solver \<lparr>amun_inspection_namespace = None, frontend_namespace = None,
               middletier_namespace = None, backend_namespace = None,
               infra_namespace = Some ''thoth-infra'',
               kubernetes_api_url = ''https://kubernetes.default.svc.cluster.local''\<rparr>
   = Calls (Get ''Template'' (Some ''thoth-infra'') ''template=solver'')"
  by (simp add: run_solver_def truthy_def)

text \<open>
  The sibling operations raise at an unset namespace, whatever the other attributes are;
  \<^verbatim>\<open>run_solver\<close> itself raises for the infra namespace only.
\<close>

lemma sibling_checks_raise:
  "\<not> truthy (frontend_namespace self) \<Longrightarrow> \<exists>msg. run_sync self = Raises (ConfigurationError msg)"
  "\<not> truthy (middletier_namespace self) \<or> \<not> truthy (infra_namespace self) \<Longrightarrow>
     \<exists>msg. run_package_extract self = Raises (ConfigurationError msg)"
  "\<not> truthy (middletier_namespace self) \<or> \<not> truthy (infra_namespace self) \<Longrightarrow>
     \<exists>msg. run_dependency_monkey self = Raises (ConfigurationError msg)"
  "\<not> truthy (backend_namespace self) \<or> \<not> truthy (infra_namespace self) \<Longrightarrow>
     \<exists>msg. run_adviser self = Raises (ConfigurationError msg)"
  "\<not> truthy (backend_namespace self) \<or> \<not> truthy (infra_namespace self) \<Longrightarrow>
     \<exists>msg. run_provenance_checker self = Raises (ConfigurationError msg)"
  "\<not> truthy (infra_namespace self) \<or> \<not> truthy (amun_inspection_namespace self) \<Longrightarrow>
     \<exists>msg. run_inspection_job self hw = Raises (ConfigurationError msg)"
  "\<not> truthy (infra_namespace self) \<or> \<not> truthy (amun_inspection_namespace self) \<Longrightarrow>
     \<exists>msg. create_inspection_imagestream self = Raises (ConfigurationError msg)"
  "\<not> truthy (infra_namespace self) \<or> \<not> truthy (amun_inspection_namespace self) \<Longrightarrow>
     \<exists>msg. create_inspection_buildconfig self hw = Raises (ConfigurationError msg)"
  "\<not> truthy (amun_inspection_namespace self) \<Longrightarrow>
     \<exists>msg. schedule_inspection_job self job = Raises (ConfigurationError msg)"
  "\<not> truthy (middletier_namespace self) \<Longrightarrow>
     \<exists>msg. schedule_dependency_monkey self job = Raises (ConfigurationError msg)"
  "\<not> truthy (backend_namespace self) \<Longrightarrow>
     \<exists>msg. schedule_adviser self job = Raises (ConfigurationError msg)"
  "\<not> truthy (backend_namespace self) \<Longrightarrow>
     \<exists>msg. schedule_provenance_checker self job = Raises (ConfigurationError msg)"
  "\<not> truthy (infra_namespace self) \<Longrightarrow> \<exists>msg. run_solver self = Raises (ConfigurationError msg)"
  "\<not> truthy ns \<Longrightarrow> \<not> truthy (middletier_namespace self) \<Longrightarrow>
     \<exists>msg. get_pod_log self http_get pod ns = Inl (ConfigurationError msg)"
  by (auto simp: run_sync_def run_package_extract_def run_dependency_monkey_def
      run_adviser_def run_provenance_checker_def run_inspection_job_def
      create_inspection_imagestream_def create_inspection_buildconfig_def
      schedule_inspection_job_def schedule_dependency_monkey_def schedule_adviser_def
      schedule_provenance_checker_def run_solver_def get_pod_log_def)

section \<open>Pod log: translation of the HTTP status\<close>

text \<open>
  C9. A 404 answer raises \<^verbatim>\<open>NotFoundException\<close>, a 400 answer returns
  \<^verbatim>\<open>None\<close>, and every other answer outside 2xx raises a request failure. The code
  leaves the third case to \<^verbatim>\<open>raise_for_status\<close>, which raises for 400 to 599 only:
  once a namespace is at hand, the result is decided by the status code as follows, and
  an answer below 400 or from 600 on returns the body.
\<close>

theorem get_pod_log_status:
  assumes "truthy namespace \<or> truthy (middletier_namespace self)"
    and "r = http_get (pod_log_endpoint self
                (if truthy namespace then namespace else middletier_namespace self) pod_id)"
  shows "get_pod_log self http_get pod_id namespace =
     (if status_code r = 404 then Inl NotFoundException
      else if status_code r = 400 then Inr None
      else if 400 \<le> status_code r \<and> status_code r < 600 then Inl (HTTPError (status_code r))
      else Inr (Some (text_of r)))"
  using assms by (auto simp: get_pod_log_def raise_for_status_def Let_def)

text \<open>
  An instance at each of the four outcomes: 404, 400, 503 and 200.
\<close>

theorem get_pod_log_status_witness:
  "truthy (middletier_namespace
     \<lparr>amun_inspection_namespace = None, frontend_namespace = None,
      middletier_namespace = Some ''thoth-middletier'', backend_namespace = None,
      infra_namespace = None, kubernetes_api_url = ''https://master''\<rparr>) \<and>
   get_pod_log
     \<lparr>amun_inspection_namespace = None, frontend_namespace = None,
      middletier_namespace = Some ''thoth-middletier'', backend_namespace = None,
      infra_namespace = None, kubernetes_api_url = ''https://master''\<rparr>
     (answering \<lparr>status_code = 404, text_of = ''not found''\<rparr>) ''pod-1'' None
     = Inl NotFoundException \<and>
   get_pod_log
     \<lparr>amun_inspection_namespace = None, frontend_namespace = None,
      middletier_namespace = Some ''thoth-middletier'', backend_namespace = None,
      infra_namespace = None, kubernetes_api_url = ''https://master''\<rparr>
     (answering \<lparr>status_code = 400, text_of = ''bad request''\<rparr>) ''pod-1'' None
     = Inr None \<and>
   get_pod_log
     \<lparr>amun_inspection_namespace = None, frontend_namespace = None,
      middletier_namespace = Some ''thoth-middletier'', backend_namespace = None,
      infra_namespace = None, kubernetes_api_url = ''https://master''\<rparr>
     (answering \<lparr>status_code = 503, text_of = ''unavailable''\<rparr>) ''pod-1'' None
     = Inl (HTTPError 503) \<and>
   get_pod_log
     \<lparr>amun_inspection_namespace = None, frontend_namespace = None,
      middletier_namespace = Some ''thoth-middletier'', backend_namespace = None,
      infra_namespace = None, kubernetes_api_url = ''https://master''\<rparr>
     (answering \<lparr>status_code = 200, text_of = ''log line''\<rparr>) ''pod-1'' None
     = Inr (Some ''log line'')"
  using
    get_pod_log_status [of None
      "\<lparr>amun_inspection_namespace = None, frontend_namespace = None,
        middletier_namespace = Some ''thoth-middletier'', backend_namespace = None,
        infra_namespace = None, kubernetes_api_url = ''https://master''\<rparr>"
      "\<lparr>status_code = 404, text_of = ''not found''\<rparr>"
      "answering \<lparr>status_code = 404, text_of = ''not found''\<rparr>" "''pod-1''"]
    get_pod_log_status [of None
      "\<lparr>amun_inspection_namespace = None, frontend_namespace = None,
        middletier_namespace = Some ''thoth-middletier'', backend_namespace = None,
        infra_namespace = None, kubernetes_api_url = ''https://master''\<rparr>"
      "\<lparr>status_code = 400, text_of = ''bad request''\<rparr>"
      "answering \<lparr>status_code = 400, text_of = ''bad request''\<rparr>" "''pod-1''"]
    get_pod_log_status [of None
      "\<lparr>amun_inspection_namespace = None, frontend_namespace = None,
        middletier_namespace = Some ''thoth-middletier'', backend_namespace = None,
        infra_namespace = None, kubernetes_api_url = ''https://master''\<rparr>"
      "\<lparr>status_code = 503, text_of = ''unavailable''\<rparr>"
      "answering \<lparr>status_code = 503, text_of = ''unavailable''\<rparr>" "''pod-1''"]
    get_pod_log_status [of None
      "\<lparr>amun_inspection_namespace = None, frontend_namespace = None,
        middletier_namespace = Some ''thoth-middletier'', backend_namespace = None,
        infra_namespace = None, kubernetes_api_url = ''https://master''\<rparr>"
      "\<lparr>status_code = 200, text_of = ''log line''\<rparr>"
      "answering \<lparr>status_code = 200, text_of = ''log line''\<rparr>" "''pod-1''"]
  by (simp add: truthy_def answering_def)

text \<open>
  A status outside 2xx that does not raise: 304 returns the (empty) body.
\<close>

theorem get_pod_log_unchecked_status:
  "get_pod_log
     \<lparr>amun_inspection_namespace = None, frontend_namespace = None,
      middletier_namespace = Some ''thoth-middletier'', backend_namespace = None,
      infra_namespace = None, kubernetes_api_url = ''https://master''\<rparr>
     (answering \<lparr>status_code = 304, text_of = ''''\<rparr>) ''pod-1'' None
   = Inr (Some '''')"
  by (simp add: get_pod_log_def truthy_def raise_for_status_def answering_def)

section \<open>Parameter upsert\<close>

text \<open>
  The inner loop leaves the names of the entries alone, assigns at most one entry, and
  a mapping with distinct names touches an entry at most once. \<open>for_each_upsert\<close> is
  the invariant of the outer loop: the old entries stay in place, each one untouched or
  assigned the value of its own name, and the names the list did not have are appended
  in the order of the mapping.
\<close>

lemma named_update_value [simp]: "named n (AList.update ''value'' v e) = named n e"
  by (simp add: named_def update_conv')

lemma has_name_update_value [simp]: "has_name (AList.update ''value'' v e) = has_name e"
  by (simp add: has_name_def update_conv')

lemma named_new_entry [simp]: "named m (new_entry n v) = (m = n)"
  by (auto simp: named_def new_entry_def)

lemma has_name_new_entry [simp]: "has_name (new_entry n v)"
  by (simp add: has_name_def new_entry_def)

lemma named_unique: "named n e \<Longrightarrow> named m e \<Longrightarrow> m = n"
  by (simp add: named_def)

lemma assign_first_absent:
  "list_all has_name es \<Longrightarrow> \<not> list_ex (named n) es \<Longrightarrow> assign_first n v es = Inr None"
  by (induction es) (auto simp: has_name_def named_def)

lemma assign_first_present:
  "list_all has_name es \<Longrightarrow> list_ex (named n) es \<Longrightarrow>
   \<exists>es'. assign_first n v es = Inr (Some es') \<and>
         list_all2 (touched (\<lambda>_. v) [(n, w)]) es es'"
proof (induction es)
  case Nil
  then show ?case by simp
next
  case (Cons e es)
  show ?case
  proof (cases "named n e")
    case True
    then have "assign_first n v (e # es) = Inr (Some (AList.update ''value'' v e # es))"
      by (simp add: named_def)
    moreover have "list_all2 (touched (\<lambda>_. v) [(n, w)]) (e # es) (AList.update ''value'' v e # es)"
      using True by (simp add: touched_def list.rel_refl)
    ultimately show ?thesis by blast
  next
    case False
    with Cons.prems have ex: "list_ex (named n) es" and all: "list_all has_name es"
      and hn: "has_name e" by simp_all
    from Cons.IH [OF all ex] obtain es' where
      a: "assign_first n v es = Inr (Some es')" and
      r: "list_all2 (touched (\<lambda>_. v) [(n, w)]) es es'" by blast
    from hn False a have "assign_first n v (e # es) = Inr (Some (e # es'))"
      by (auto simp: has_name_def named_def)
    moreover have "list_all2 (touched (\<lambda>_. v) [(n, w)]) (e # es) (e # es')"
      using r by (simp add: touched_def)
    ultimately show ?thesis by blast
  qed
qed

lemma touched_names:
  "list_all2 (touched f ps) es es' \<Longrightarrow> list_ex (named m) es' = list_ex (named m) es"
  by (induction es es' rule: list_all2_induct) (auto simp: touched_def)

lemma touched_has_name:
  "list_all2 (touched f ps) es es' \<Longrightarrow> list_all has_name es' = list_all has_name es"
  by (induction es es' rule: list_all2_induct) (auto simp: touched_def)

lemma touched_step:
  assumes "n \<notin> fst ` set ps"
    and "touched (\<lambda>_. f v) [(n, w)] a b" and "touched f ps b c"
  shows "touched f ((n, v) # ps) a c"
proof -
  from assms(2) consider "b = a" | "named n a" "b = AList.update ''value'' (f v) a"
    by (auto simp: touched_def)
  then show ?thesis
  proof cases
    case 1
    with assms(3) show ?thesis by (auto simp: touched_def)
  next
    case 2
    from assms(3) consider "c = b"
      | m u where "(m, u) \<in> set ps" "named m b" "c = AList.update ''value'' (f u) b"
      by (auto simp: touched_def)
    then show ?thesis
    proof cases
      case 1
      with 2 show ?thesis by (auto simp: touched_def)
    next
      case (2 m u)
      with \<open>named n a\<close> \<open>b = _\<close> have "m = n" by (auto dest: named_unique)
      with 2 assms(1) show ?thesis by force
    qed
  qed
qed

lemma touched_mono: "touched f ps a b \<Longrightarrow> touched f (p # ps) a b"
  by (auto simp: touched_def)

lemma touched_new:
  "n \<notin> fst ` set ps \<Longrightarrow> touched f ps (new_entry n x) c \<Longrightarrow> c = new_entry n x"
  by (force simp: touched_def)

lemma for_each_upsert:
  "distinct (map fst ps) \<Longrightarrow> list_all has_name es \<Longrightarrow>
   \<exists>es'. for_each (upsert f g) ps es =
           Inr (es' @ map (\<lambda>(n, v). new_entry n (g v))
                        (filter (\<lambda>(n, v). \<not> list_ex (named n) es) ps)) \<and>
         list_all2 (touched f ps) es es'"
proof (induction ps arbitrary: es)
  case Nil
  then show ?case by (simp add: touched_def list.rel_refl)
next
  case (Cons p ps)
  obtain n v where p: "p = (n, v)" by (cases p)
  from Cons.prems p have fresh: "n \<notin> fst ` set ps" and dist: "distinct (map fst ps)"
    by auto
  show ?case
  proof (cases "list_ex (named n) es")
    case True
    from assign_first_present [OF Cons.prems(2) True, of "f v" v] obtain es1 where
      a: "assign_first n (f v) es = Inr (Some es1)" and
      r: "list_all2 (touched (\<lambda>_. f v) [(n, v)]) es es1" by blast
    have all1: "list_all has_name es1"
      using touched_has_name [OF r] Cons.prems(2) by simp
    from Cons.IH [OF dist all1] obtain es' where
      run: "for_each (upsert f g) ps es1 =
              Inr (es' @ map (\<lambda>(n, v). new_entry n (g v))
                            (filter (\<lambda>(n, v). \<not> list_ex (named n) es1) ps))" and
      r': "list_all2 (touched f ps) es1 es'" by blast
    have same: "filter (\<lambda>(n, v). \<not> list_ex (named n) es1) ps
                = filter (\<lambda>(n, v). \<not> list_ex (named n) es) ps"
      using touched_names [OF r] by simp
    have rel: "list_all2 (touched f ((n, v) # ps)) es es'"
      using r r' by (rule list_all2_trans [rotated]) (rule touched_step [OF fresh])
    have "for_each (upsert f g) (p # ps) es =
            Inr (es' @ map (\<lambda>(n, v). new_entry n (g v))
                          (filter (\<lambda>(n, v). \<not> list_ex (named n) es) (p # ps)))"
      using run a True p same by simp
    with rel p show ?thesis by blast
  next
    case False
    have a: "assign_first n (f v) es = Inr None"
      using assign_first_absent [OF Cons.prems(2) False] .
    let ?es1 = "es @ [new_entry n (g v)]"
    have all1: "list_all has_name ?es1" using Cons.prems(2) by simp
    from Cons.IH [OF dist all1] obtain es' where
      run: "for_each (upsert f g) ps ?es1 =
              Inr (es' @ map (\<lambda>(n, v). new_entry n (g v))
                            (filter (\<lambda>(n, v). \<not> list_ex (named n) ?es1) ps))" and
      r': "list_all2 (touched f ps) ?es1 es'" by blast
    from r' obtain es'' c where es': "es' = es'' @ [c]"
      and r'': "list_all2 (touched f ps) es es''" and c: "touched f ps (new_entry n (g v)) c"
      by (auto simp: list_all2_append1 list_all2_Cons1)
    from touched_new [OF fresh c] have c': "c = new_entry n (g v)" .
    have same: "filter (\<lambda>(n, v). \<not> list_ex (named n) ?es1) ps
                = filter (\<lambda>(n, v). \<not> list_ex (named n) es) ps"
      using fresh by (intro filter_cong) (auto simp: rev_image_eqI)
    have rel: "list_all2 (touched f ((n, v) # ps)) es es''"
      using r'' by (rule list_all2_mono) (rule touched_mono)
    have "for_each (upsert f g) (p # ps) es =
            Inr (es'' @ map (\<lambda>(n, v). new_entry n (g v))
                           (filter (\<lambda>(n, v). \<not> list_ex (named n) es) (p # ps)))"
      using run a False p same es' c' by simp
    with rel p show ?thesis by blast
  qed
qed


lemma set_parameter_upsert: "set_parameter = upsert parameter_str parameter_str"
  by (intro ext) (auto simp: new_entry_def split: sum.splits option.splits)

lemma for_each_set_env_entry:
  "env t = Some es \<Longrightarrow>
   for_each set_env_entry ps t =
     (case for_each (upsert (\<lambda>v. v) (\<lambda>v. PStr (str v))) ps es of
        Inl e \<Rightarrow> Inl e
      | Inr es' \<Rightarrow> Inr (t\<lparr>env := Some es'\<rparr>))"
proof (induction ps arbitrary: t es)
  case Nil
  then show ?case by simp
next
  case (Cons p ps)
  obtain n v where p: "p = (n, v)" by (cases p)
  show ?case
  proof (cases "assign_first n v es")
    case (Inl e)
    with Cons.prems p show ?thesis by simp
  next
    case (Inr r)
    show ?thesis
    proof (cases r)
      case None
      with Inr Cons.prems p
        Cons.IH [of "t\<lparr>env := Some (es @ [new_entry n (PStr (str v))])\<rparr>"
                    "es @ [new_entry n (PStr (str v))]"]
      show ?thesis by (simp add: new_entry_def split: sum.splits)
    next
      case (Some es1)
      with Inr Cons.prems p Cons.IH [of "t\<lparr>env := Some es1\<rparr>" es1]
      show ?thesis by (simp split: sum.splits)
    qed
  qed
qed

text \<open>
  The sibling \<^verbatim>\<open>set_template_parameters\<close> assigns and appends the same coerced value.
  After one run every name of the mapping is settled: the inner loop for it finds an
  entry and leaves the list as it is. A second run therefore changes nothing, and it
  raises exactly when the first one does.
\<close>

lemma assign_first_again:
  "assign_first n x es = Inr (Some es') \<Longrightarrow> assign_first n x es' = Inr (Some es')"
proof (induction es arbitrary: es')
  case Nil
  then show ?case by simp
next
  case (Cons e es)
  then show ?case
    by (auto simp: update_conv' split: option.splits if_splits sum.splits)
qed

lemma assign_first_appended:
  "assign_first n x es = Inr None \<Longrightarrow>
   assign_first n x (es @ [new_entry n x]) = Inr (Some (es @ [new_entry n x]))"
proof (induction es)
  case Nil
  then show ?case by (simp add: new_entry_def)
next
  case (Cons e es)
  then show ?case by (auto split: option.splits if_splits sum.splits)
qed

lemma assign_first_append_kept:
  "assign_first n x es = Inr (Some es) \<Longrightarrow>
   assign_first n x (es @ zs) = Inr (Some (es @ zs))"
proof (induction es)
  case Nil
  then show ?case by simp
next
  case (Cons e es)
  then show ?case by (auto split: option.splits if_splits sum.splits)
qed

lemma assign_first_other_kept:
  "assign_first n x es = Inr (Some es) \<Longrightarrow> m \<noteq> n \<Longrightarrow>
   assign_first m y es = Inr (Some es2) \<Longrightarrow> assign_first n x es2 = Inr (Some es2)"
proof (induction es arbitrary: es2)
  case Nil
  then show ?case by simp
next
  case (Cons e es)
  then show ?case
    by (auto simp: update_conv' split: option.splits if_splits sum.splits)
qed

lemma upsert_settles:
  "upsert f f es (n, v) = Inr es' \<Longrightarrow> assign_first n (f v) es' = Inr (Some es')"
  by (auto simp: assign_first_again assign_first_appended split: sum.splits option.splits)

lemma upsert_other_kept:
  "assign_first n x es = Inr (Some es) \<Longrightarrow> m \<noteq> n \<Longrightarrow> upsert f g es (m, w) = Inr es' \<Longrightarrow>
   assign_first n x es' = Inr (Some es')"
  by (auto simp: assign_first_append_kept split: sum.splits option.splits
      dest: assign_first_other_kept)

lemma for_each_upsert_settles:
  "for_each (upsert f f) ps es = Inr es' \<Longrightarrow> distinct (map fst ps) \<Longrightarrow>
   (n, v) \<in> set ps \<or> (n \<notin> fst ` set ps \<and> assign_first n (f v) es = Inr (Some es)) \<Longrightarrow>
   assign_first n (f v) es' = Inr (Some es')"
proof (induction ps arbitrary: es)
  case Nil
  then show ?case by simp
next
  case (Cons p ps)
  obtain m w where p: "p = (m, w)" by (cases p)
  from Cons.prems(1) p obtain es1 where
    step: "upsert f f es (m, w) = Inr es1" and rest: "for_each (upsert f f) ps es1 = Inr es'"
    by (auto split: sum.splits)
  from Cons.prems(2) p have fresh: "m \<notin> fst ` set ps" and dist: "distinct (map fst ps)"
    by auto
  show ?case
  proof (cases "(n, v) = (m, w)")
    case True
    with upsert_settles [OF step] fresh
    have "n \<notin> fst ` set ps \<and> assign_first n (f v) es1 = Inr (Some es1)" by simp
    with Cons.IH [OF rest dist] show ?thesis by blast
  next
    case False
    show ?thesis
    proof (cases "(n, v) \<in> set ps")
      case True
      with Cons.IH [OF rest dist] show ?thesis by blast
    next
      case False
      with \<open>(n, v) \<noteq> (m, w)\<close> Cons.prems(3) p
      have out: "n \<notin> fst ` set ps" "n \<noteq> m" and kept: "assign_first n (f v) es = Inr (Some es)"
        by auto
      from upsert_other_kept [OF kept _ step] out(2)
      have "assign_first n (f v) es1 = Inr (Some es1)" by blast
      with Cons.IH [OF rest dist] out(1) show ?thesis by blast
    qed
  qed
qed

lemma for_each_upsert_settled:
  "(\<And>n v. (n, v) \<in> set ps \<Longrightarrow> assign_first n (f v) es = Inr (Some es)) \<Longrightarrow>
   for_each (upsert f g) ps es = Inr es"
  by (induction ps) auto

lemma for_each_upsert_twice:
  assumes "for_each (upsert f f) ps es = Inr es'" and "distinct (map fst ps)"
  shows "for_each (upsert f f) ps es' = Inr es'"
  using for_each_upsert_settles [OF assms] by (intro for_each_upsert_settled) blast

lemma set_template_parameters_idempotent:
  assumes "distinct (map fst params)"
  shows "set_template_parameters_twice t params = set_template_parameters t params"
proof (cases "set_template_parameters t params")
  case (Inl e)
  then show ?thesis by (simp add: set_template_parameters_twice_def)
next
  case (Inr t')
  then obtain m nm es' where m: "metadata t = Some m" "map_of m ''name'' = Some nm"
    and run: "for_each (upsert parameter_str parameter_str) params
                (case parameters t of None \<Rightarrow> [] | Some entries \<Rightarrow> entries) = Inr es'"
    and t': "t' = t\<lparr>parameters := Some es'\<rparr>"
    by (auto simp: set_template_parameters_def getitem_def set_parameter_upsert
        split: option.splits sum.splits)
  from for_each_upsert_twice [OF run assms] m t'
  have "set_template_parameters t' params = Inr t'"
    by (simp add: set_template_parameters_def getitem_def set_parameter_upsert)
  with Inr show ?thesis by (simp add: set_template_parameters_twice_def)
qed

lemma assign_first_match:
  "list_all has_name pre \<Longrightarrow> \<not> list_ex (named n) pre \<Longrightarrow> named n e \<Longrightarrow>
   assign_first n x (pre @ e # post) = Inr (Some (pre @ AList.update ''value'' x e # post))"
  by (induction pre) (auto simp: has_name_def named_def)

lemma set_parameter_first_match:
  assumes "list_all has_name pre" and "\<not> list_ex (named n) pre" and "named n e"
  shows "set_parameter (pre @ e # post) (n, v)
           = Inr (pre @ AList.update ''value'' (parameter_str v) e # post)"
  by (simp add: assign_first_match [OF assms])

lemma set_parameter_no_match:
  assumes "list_all has_name es" and "\<not> list_ex (named n) es"
  shows "set_parameter es (n, v) = Inr (es @ [new_entry n (parameter_str v)])"
proof -
  have "assign_first n x es = Inr None" for x
    using assms by (induction es) (auto simp: has_name_def named_def)
  then show ?thesis by (simp add: new_entry_def)
qed

text \<open>
  C3. Applying the same mapping twice gives the same entries as applying it once. In
  \<^verbatim>\<open>_set_env_var\<close> the first application of \<^verbatim>\<open>THOTH_FORCE_SYNC=1\<close> to an empty list
  appends the string \<^verbatim>\<open>"1"\<close>; the second finds the entry and assigns the integer
  \<^verbatim>\<open>1\<close>, since the assignment of line 133 has no \<^verbatim>\<open>str\<close>.
\<close>

theorem set_env_var_twice_differs:
  "set_env_var \<lparr>env = Some []\<rparr> [(''THOTH_FORCE_SYNC'', PInt 1)]
     = Inr \<lparr>env = Some [[(''name'', PStr ''THOTH_FORCE_SYNC''), (''value'', PStr ''1'')]]\<rparr>
   \<and> set_env_var_twice \<lparr>env = Some []\<rparr> [(''THOTH_FORCE_SYNC'', PInt 1)]
     = Inr \<lparr>env = Some [[(''name'', PStr ''THOTH_FORCE_SYNC''), (''value'', PInt 1)]]\<rparr>"
  by (simp add: set_env_var_twice_def set_env_var_def str_int_def str_nat.simps)

text \<open>
  C4. The first entry with a matching name gets the new value coerced to a string.
  \<^verbatim>\<open>_set_env_var\<close> on an entry \<^verbatim>\<open>THOTH_FORCE_SYNC\<close> with the new value \<^verbatim>\<open>1\<close> stores
  the integer, not the string \<^verbatim>\<open>"1"\<close>.
\<close>

theorem set_env_var_overwrite_not_coerced:
  "set_env_var
     \<lparr>env = Some [[(''name'', PStr ''THOTH_FORCE_SYNC''), (''value'', PStr ''0'')]]\<rparr>
     [(''THOTH_FORCE_SYNC'', PInt 1)]
   = Inr \<lparr>env = Some [[(''name'', PStr ''THOTH_FORCE_SYNC''), (''value'', PInt 1)]]\<rparr>"
  by (simp add: set_env_var_def)

text \<open>
  C8. The upsert keeps every entry that was in the list, in the same order (each one
  either untouched or with its \<^verbatim>\<open>value\<close> assigned from the mapping pair of its name),
  and appends one entry for each name of the mapping that no entry had, in the order of
  the mapping. It holds for \<^verbatim>\<open>set_template_parameters\<close> and for \<^verbatim>\<open>_set_env_var\<close>,
  on a mapping with distinct names (a Python dictionary) and entries that all have a
  \<^verbatim>\<open>name\<close>.
\<close>

theorem upsert_keeps_order:
  assumes "distinct (map fst ps)" and "list_all has_name es"
    and "metadata t = Some m" and "map_of m ''name'' \<noteq> None"
    and "es = (case parameters t of None \<Rightarrow> [] | Some entries \<Rightarrow> entries)"
    and "env pt = Some es"
  shows "(\<exists>es'. set_template_parameters t ps =
            Inr (t\<lparr>parameters := Some (es' @
                   map (\<lambda>(n, v). new_entry n (parameter_str v))
                     (filter (\<lambda>(n, v). \<not> list_ex (named n) es) ps))\<rparr>) \<and>
            list_all2 (touched parameter_str ps) es es') \<and>
         (\<exists>es'. set_env_var pt ps =
            Inr (pt\<lparr>env := Some (es' @
                   map (\<lambda>(n, v). new_entry n (PStr (str v)))
                     (filter (\<lambda>(n, v). \<not> list_ex (named n) es) ps))\<rparr>) \<and>
            list_all2 (touched (\<lambda>v. v) ps) es es')"
proof
  from for_each_upsert [OF assms(1,2), of parameter_str parameter_str] obtain es' where
    run: "for_each (upsert parameter_str parameter_str) ps es =
            Inr (es' @ map (\<lambda>(n, v). new_entry n (parameter_str v))
                        (filter (\<lambda>(n, v). \<not> list_ex (named n) es) ps))" and
    rel: "list_all2 (touched parameter_str ps) es es'" by blast
  from assms(4) obtain nm where "map_of m ''name'' = Some nm" by blast
  with run assms(3,5) have "set_template_parameters t ps =
      Inr (t\<lparr>parameters := Some (es' @
             map (\<lambda>(n, v). new_entry n (parameter_str v))
               (filter (\<lambda>(n, v). \<not> list_ex (named n) es) ps))\<rparr>)"
    by (simp add: set_template_parameters_def getitem_def set_parameter_upsert)
  with rel show "\<exists>es'. set_template_parameters t ps =
            Inr (t\<lparr>parameters := Some (es' @
                   map (\<lambda>(n, v). new_entry n (parameter_str v))
                     (filter (\<lambda>(n, v). \<not> list_ex (named n) es) ps))\<rparr>) \<and>
            list_all2 (touched parameter_str ps) es es'" by blast
next
  from for_each_upsert [OF assms(1,2), of "\<lambda>v. v" "\<lambda>v. PStr (str v)"] obtain es' where
    run: "for_each (upsert (\<lambda>v. v) (\<lambda>v. PStr (str v))) ps es =
            Inr (es' @ map (\<lambda>(n, v). new_entry n (PStr (str v)))
                        (filter (\<lambda>(n, v). \<not> list_ex (named n) es) ps))" and
    rel: "list_all2 (touched (\<lambda>v. v) ps) es es'" by blast
  from run have "set_env_var pt ps =
      Inr (pt\<lparr>env := Some (es' @
             map (\<lambda>(n, v). new_entry n (PStr (str v)))
               (filter (\<lambda>(n, v). \<not> list_ex (named n) es) ps))\<rparr>)"
    by (simp add: set_env_var_def for_each_set_env_entry [OF assms(6)])
  with rel show "\<exists>es'. set_env_var pt ps =
            Inr (pt\<lparr>env := Some (es' @
                   map (\<lambda>(n, v). new_entry n (PStr (str v)))
                     (filter (\<lambda>(n, v). \<not> list_ex (named n) es) ps))\<rparr>) \<and>
            list_all2 (touched (\<lambda>v. v) ps) es es'" by blast
qed

text \<open>
  An instance: the entries A and B with the mapping B=2, C=None.
\<close>

theorem upsert_keeps_order_witness:
  "distinct (map fst [(''B'', PInt 2), (''C'', PNone)]) \<and>
   list_all has_name [[(''name'', PStr ''A''), (''value'', PStr ''1'')], [(''name'', PStr ''B'')]] \<and>
   metadata \<lparr>metadata = Some [(''name'', PStr ''solver'')],
             parameters = Some [[(''name'', PStr ''A''), (''value'', PStr ''1'')],
                                [(''name'', PStr ''B'')]]\<rparr>
     = Some [(''name'', PStr ''solver'')] \<and>
   map_of [(''name'', PStr ''solver'')] ''name'' \<noteq> None \<and>
   env \<lparr>env = Some [[(''name'', PStr ''A''), (''value'', PStr ''1'')], [(''name'', PStr ''B'')]]\<rparr>
     = Some [[(''name'', PStr ''A''), (''value'', PStr ''1'')], [(''name'', PStr ''B'')]] \<and>
   set_template_parameters
     \<lparr>metadata = Some [(''name'', PStr ''solver'')],
      parameters = Some [[(''name'', PStr ''A''), (''value'', PStr ''1'')],
                         [(''name'', PStr ''B'')]]\<rparr>
     [(''B'', PInt 2), (''C'', PNone)]
   = Inr \<lparr>metadata = Some [(''name'', PStr ''solver'')],
          parameters = Some [[(''name'', PStr ''A''), (''value'', PStr ''1'')],
                             [(''name'', PStr ''B''), (''value'', PStr ''2'')],
                             [(''name'', PStr ''C''), (''value'', PStr [])]]\<rparr> \<and>
   set_env_var
     \<lparr>env = Some [[(''name'', PStr ''A''), (''value'', PStr ''1'')], [(''name'', PStr ''B'')]]\<rparr>
     [(''B'', PInt 2), (''C'', PNone)]
   = Inr \<lparr>env = Some [[(''name'', PStr ''A''), (''value'', PStr ''1'')],
                      [(''name'', PStr ''B''), (''value'', PInt 2)],
                      [(''name'', PStr ''C''), (''value'', PStr ''None'')]]\<rparr>"
  using upsert_keeps_order [of "[(''B'', PInt 2), (''C'', PNone)]"
      "[[(''name'', PStr ''A''), (''value'', PStr ''1'')], [(''name'', PStr ''B'')]]"
      "\<lparr>metadata = Some [(''name'', PStr ''solver'')],
        parameters = Some [[(''name'', PStr ''A''), (''value'', PStr ''1'')],
                           [(''name'', PStr ''B'')]]\<rparr>"
      "[(''name'', PStr ''solver'')]"
      "\<lparr>env = Some [[(''name'', PStr ''A''), (''value'', PStr ''1'')],
                     [(''name'', PStr ''B'')]]\<rparr>"]
  by (simp add: has_name_def set_template_parameters_def set_env_var_def getitem_def
      parameter_str_def str_int_def str_nat.simps)

section \<open>Status normalizer\<close>

text \<open>
  Facts about the loop of \<^verbatim>\<open>_status_report\<close>: it returns when every key is in the
  table and \<^verbatim>\<open>containerID\<close> is a string, it keeps the key set of the report, and an
  output field changes only at the keys translated to it.
\<close>

lemma for_each_append:
  "for_each body (xs @ ys) s = bind (for_each body xs s) (for_each body ys)"
  by (induction xs arbitrary: s) (auto split: sum.splits)

lemma known_key_cases:
  "known_key k \<longleftrightarrow> k \<in> {''exitCode'', ''finishedAt'', ''reason'', ''startedAt'', ''containerID'', ''message''}"
  by (auto simp: known_key_def TRANSLATION_TABLE_def split: if_splits)

lemma report_item_returns:
  "known_key k \<Longrightarrow> k = ''containerID'' \<longrightarrow> is_str v \<Longrightarrow> \<exists>rep'. report_item rep (k, v) = Inr rep'"
  by (cases v) (auto simp: known_key_def)

lemma report_items_return:
  "list_all (\<lambda>(k, v). known_key k) items \<Longrightarrow> container_is_str items \<Longrightarrow>
   \<exists>rep'. for_each report_item items rep = Inr rep'"
proof (induction items arbitrary: rep)
  case Nil
  then show ?case by simp
next
  case (Cons kv items)
  obtain k v where kv: "kv = (k, v)" by (cases kv)
  from Cons.prems kv obtain rep1 where step: "report_item rep (k, v) = Inr rep1"
    using report_item_returns [of k v rep] by (auto simp: container_is_str_def)
  from Cons.prems have "list_all (\<lambda>(k, v). known_key k) items" "container_is_str items"
    by (simp_all add: container_is_str_def)
  from Cons.IH [OF this, of rep1] step kv show ?case by simp
qed

lemma translated_field:
  "map_of TRANSLATION_TABLE k = Some field \<Longrightarrow> field \<in> REPORT_KEYS"
  by (simp add: TRANSLATION_TABLE_def REPORT_KEYS_def split: if_splits)

lemma update_keeps_keys:
  "k \<in> K \<Longrightarrow> fst ` set rep = K \<Longrightarrow> fst ` set (AList.update k v rep) = K"
  by (auto simp: dom_update)

lemma report_item_keys:
  assumes "report_item rep (k, v) = Inr rep'" and "fst ` set rep = REPORT_KEYS"
  shows "fst ` set rep' = REPORT_KEYS"
proof (cases "k = ''containerID''")
  case True
  have c: "''container'' \<in> REPORT_KEYS" by (simp add: REPORT_KEYS_def)
  from True assms(1) obtain x where "rep' = AList.update ''container'' x rep"
    by (cases v) auto
  with update_keeps_keys [OF c assms(2)] show ?thesis by simp
next
  case False
  with assms(1) obtain field where f: "map_of TRANSLATION_TABLE k = Some field"
    and r: "rep' = AList.update field v rep"
    by (auto split: option.splits)
  from update_keeps_keys [OF translated_field [OF f] assms(2)] r show ?thesis by simp
qed

lemma report_items_keys:
  "for_each report_item items rep = Inr rep' \<Longrightarrow> fst ` set rep = REPORT_KEYS \<Longrightarrow>
   fst ` set rep' = REPORT_KEYS"
proof (induction items arbitrary: rep)
  case Nil
  then show ?case by simp
next
  case (Cons kv items)
  obtain k v where kv: "kv = (k, v)" by (cases kv)
  from Cons.prems(1) kv obtain rep1 where
    step: "report_item rep (k, v) = Inr rep1" and rest: "for_each report_item items rep1 = Inr rep'"
    by (auto split: sum.splits)
  from report_item_keys [OF step Cons.prems(2)] Cons.IH [OF rest] show ?case by simp
qed

lemma report_item_reason_kept:
  "report_item rep (k, v) = Inr rep' \<Longrightarrow> k \<noteq> ''reason'' \<Longrightarrow> k \<noteq> ''message'' \<Longrightarrow>
   map_of rep' ''reason'' = map_of rep ''reason''"
  by (cases v) (auto simp: update_conv' TRANSLATION_TABLE_def split: if_splits)

lemma report_items_reason_kept:
  "for_each report_item items rep = Inr rep' \<Longrightarrow>
   ''reason'' \<notin> fst ` set items \<Longrightarrow> ''message'' \<notin> fst ` set items \<Longrightarrow>
   map_of rep' ''reason'' = map_of rep ''reason''"
proof (induction items arbitrary: rep)
  case Nil
  then show ?case by simp
next
  case (Cons kv items)
  obtain k v where kv: "kv = (k, v)" by (cases kv)
  from Cons.prems(1) kv obtain rep1 where
    step: "report_item rep (k, v) = Inr rep1" and rest: "for_each report_item items rep1 = Inr rep'"
    by (auto split: sum.splits)
  from Cons.prems kv have "k \<noteq> ''reason''" "k \<noteq> ''message''"
    "''reason'' \<notin> fst ` set items" "''message'' \<notin> fst ` set items" by auto
  with report_item_reason_kept [OF step] Cons.IH [OF rest] show ?case by simp
qed

lemma report_item_container_kept:
  "report_item rep (k, v) = Inr rep' \<Longrightarrow> k \<noteq> ''containerID'' \<Longrightarrow>
   map_of rep' ''container'' = map_of rep ''container''"
  by (auto simp: update_conv' TRANSLATION_TABLE_def split: if_splits)

lemma report_items_container_kept:
  "for_each report_item items rep = Inr rep' \<Longrightarrow> ''containerID'' \<notin> fst ` set items \<Longrightarrow>
   map_of rep' ''container'' = map_of rep ''container''"
proof (induction items arbitrary: rep)
  case Nil
  then show ?case by simp
next
  case (Cons kv items)
  obtain k v where kv: "kv = (k, v)" by (cases kv)
  from Cons.prems(1) kv obtain rep1 where
    step: "report_item rep (k, v) = Inr rep1" and rest: "for_each report_item items rep1 = Inr rep'"
    by (auto split: sum.splits)
  from Cons.prems kv have "k \<noteq> ''containerID''" "''containerID'' \<notin> fst ` set items" by auto
  with report_item_container_kept [OF step] Cons.IH [OF rest] show ?case by simp
qed

lemma report_items_container:
  "for_each report_item items rep = Inr rep' \<Longrightarrow> distinct (map fst items) \<Longrightarrow>
   (''containerID'', PStr s) \<in> set items \<Longrightarrow>
   map_of rep' ''container'' =
     Some (PStr (if startswith s ''docker://'' then drop (length ''docker://'') s else s))"
proof (induction items arbitrary: rep)
  case Nil
  then show ?case by simp
next
  case (Cons kv items)
  obtain k v where kv: "kv = (k, v)" by (cases kv)
  from Cons.prems(1) kv obtain rep1 where
    step: "report_item rep (k, v) = Inr rep1" and rest: "for_each report_item items rep1 = Inr rep'"
    by (auto split: sum.splits)
  show ?case
  proof (cases "kv = (''containerID'', PStr s)")
    case True
    with Cons.prems(2) have "''containerID'' \<notin> fst ` set items" by auto
    from report_items_container_kept [OF rest this] step True kv show ?thesis
      by (auto simp: update_conv')
  next
    case False
    with Cons.prems have "distinct (map fst items)" "(''containerID'', PStr s) \<in> set items"
      by auto
    from Cons.IH [OF rest this] show ?thesis .
  qed
qed

lemma report_items_reason:
  assumes "for_each report_item (pre @ (k, v) # post) rep = Inr rep'"
    and "k = ''reason'' \<or> k = ''message''"
    and "''reason'' \<notin> fst ` set post" and "''message'' \<notin> fst ` set post"
  shows "map_of rep' ''reason'' = Some v"
proof -
  from assms(1) obtain rep1 rep2 where
    "for_each report_item pre rep = Inr rep1" and
    step: "report_item rep1 (k, v) = Inr rep2" and
    rest: "for_each report_item post rep2 = Inr rep'"
    by (cases "for_each report_item pre rep")
       (auto simp: for_each_append split: sum.splits)
  from step assms(2) have "map_of rep2 ''reason'' = Some v"
    by (auto simp: update_conv' TRANSLATION_TABLE_def)
  with report_items_reason_kept [OF rest assms(3,4)] show ?thesis by simp
qed

lemma report_items_unknown_key:
  assumes "list_all (\<lambda>(k, v). known_key k) pre" and "container_is_str pre"
    and "\<not> known_key k"
  shows "for_each report_item (pre @ (k, v) # post) rep = Inl (KeyError k)"
proof -
  from report_items_return [OF assms(1,2)] obtain rep1 where
    "for_each report_item pre rep = Inr rep1" by blast
  moreover from assms(3) have "report_item rep1 (k, v) = Inl (KeyError k)"
    by (auto simp: known_key_def TRANSLATION_TABLE_def)
  ultimately show ?thesis by (simp add: for_each_append)
qed

lemma status_report_single:
  "status_report [(state, items)] =
     for_each report_item items
       (AList.update ''state'' (PStr state) (fromkeys (map snd TRANSLATION_TABLE)))"
  by (simp add: status_report_def)

lemma initial_report_keys:
  "fst ` set (AList.update ''state'' (PStr state) (fromkeys (map snd TRANSLATION_TABLE)))
     = REPORT_KEYS"
  by (auto simp: fromkeys_def TRANSLATION_TABLE_def REPORT_KEYS_def)

lemma container_is_strI:
  assumes "distinct (map fst items)" and "(''containerID'', PStr s) \<in> set items"
  shows "container_is_str items"
  unfolding container_is_str_def list_all_iff
proof (intro ballI, clarify)
  fix v assume "(''containerID'', v) \<in> set items"
  from eq_key_imp_eq_value [OF assms(1) this assms(2)] show "is_str v" by simp
qed

lemma update_append_fresh:
  "k \<notin> fst ` set xs \<Longrightarrow> AList.update k v (xs @ ys) = xs @ AList.update k v ys"
  by (induction xs) auto

lemma map_of_append_fresh:
  "k \<notin> fst ` set xs \<Longrightarrow> map_of (xs @ ys) k = map_of ys k"
  by (induction xs) auto

text \<open>
  C6. A status dictionary that is empty or has more than one key is reported as
  \<^verbatim>\<open>scheduling\<close>, every other field being \<^verbatim>\<open>None\<close>.
\<close>

theorem status_report_scheduling:
  "length status \<noteq> 1 \<Longrightarrow>
   status_report status =
     Inr [(''exit_code'', PNone), (''finished_at'', PNone), (''reason'', PNone),
          (''started_at'', PNone), (''container'', PNone),
          (''state'', PStr ''scheduling'')]"
  by (simp add: status_report_def fromkeys_def TRANSLATION_TABLE_def)

theorem status_report_scheduling_witness:
  "length ([] :: status) \<noteq> 1 \<and>
   length [(''waiting'', [] :: pydict), (''running'', [])] \<noteq> 1 \<and>
   status_report [] =
     Inr [(''exit_code'', PNone), (''finished_at'', PNone), (''reason'', PNone),
          (''started_at'', PNone), (''container'', PNone),
          (''state'', PStr ''scheduling'')] \<and>
   status_report [(''waiting'', []), (''running'', [])] =
     Inr [(''exit_code'', PNone), (''finished_at'', PNone), (''reason'', PNone),
          (''started_at'', PNone), (''container'', PNone),
          (''state'', PStr ''scheduling'')]"
  using status_report_scheduling [of "[]"]
    status_report_scheduling [of "[(''waiting'', []), (''running'', [])]"]
  by simp

text \<open>
  C7. When the sole state carries a \<^verbatim>\<open>containerID\<close> whose value is the string
  \<open>s\<close>, the \<^verbatim>\<open>container\<close> field of every report returned is \<open>s\<close> without its
  \<^verbatim>\<open>docker://\<close> prefix when it has one, and \<open>s\<close> unchanged otherwise; and a report is
  returned whenever all the field names are in the translation table.
\<close>

theorem container_prefix_stripped:
  assumes "distinct (map fst items)" and "(''containerID'', PStr s) \<in> set items"
  shows "(\<forall>rep. status_report [(state, items)] = Inr rep \<longrightarrow>
            map_of rep ''container'' =
              Some (PStr (if startswith s ''docker://'' then drop (length ''docker://'') s
                          else s))) \<and>
         (list_all (\<lambda>(k, v). known_key k) items \<longrightarrow>
            (\<exists>rep. status_report [(state, items)] = Inr rep))"
proof (intro conjI allI impI)
  fix rep assume "status_report [(state, items)] = Inr rep"
  then have "for_each report_item items
      (AList.update ''state'' (PStr state) (fromkeys (map snd TRANSLATION_TABLE))) = Inr rep"
    by (simp only: status_report_single)
  from report_items_container [OF this assms]
  show "map_of rep ''container'' =
      Some (PStr (if startswith s ''docker://'' then drop (length ''docker://'') s else s))" .
next
  assume "list_all (\<lambda>(k, v). known_key k) items"
  from report_items_return [OF this container_is_strI [OF assms]]
  show "\<exists>rep. status_report [(state, items)] = Inr rep"
    by (simp only: status_report_single)
qed

text \<open>
  An instance: \<^verbatim>\<open>docker://abc123\<close> is reported as \<^verbatim>\<open>abc123\<close>.
\<close>

theorem container_prefix_stripped_witness:
  "distinct (map fst [(''startedAt'', PStr ''2018-11-01T10:00:00Z''),
                      (''containerID'', PStr ''docker://abc123'')]) \<and>
   (''containerID'', PStr ''docker://abc123'') \<in>
      set [(''startedAt'', PStr ''2018-11-01T10:00:00Z''),
           (''containerID'', PStr ''docker://abc123'')] \<and>
   list_all (\<lambda>(k, v). known_key k)
      [(''startedAt'', PStr ''2018-11-01T10:00:00Z''),
       (''containerID'', PStr ''docker://abc123'')] \<and>
   (\<exists>rep. status_report [(''running'',
              [(''startedAt'', PStr ''2018-11-01T10:00:00Z''),
               (''containerID'', PStr ''docker://abc123'')])] = Inr rep \<and>
          map_of rep ''container'' = Some (PStr ''abc123''))"
  using container_prefix_stripped [of
      "[(''startedAt'', PStr ''2018-11-01T10:00:00Z''),
        (''containerID'', PStr ''docker://abc123'')]" "''docker://abc123''" "''running''"]
  by (auto simp: known_key_def TRANSLATION_TABLE_def startswith_def)

text \<open>
  C5. The claim is that \<^verbatim>\<open>message\<close> is copied to \<^verbatim>\<open>reason\<close> only when no raw
  \<^verbatim>\<open>reason\<close> has set it. The code has no such test: both fields are written to
  \<^verbatim>\<open>reason\<close> in the order of the nested dictionary. When all field names are in the
  translation table and \<^verbatim>\<open>containerID\<close>, if there is one, is a string, a report is
  returned and its reason is the value of the \<^verbatim>\<open>reason\<close> or \<^verbatim>\<open>message\<close> field that
  no later \<^verbatim>\<open>reason\<close> or \<^verbatim>\<open>message\<close> field follows.
\<close>

theorem reason_is_last_written:
  assumes "list_all (\<lambda>(k, v). known_key k) (pre @ (k, v) # post)"
    and "container_is_str (pre @ (k, v) # post)"
    and "k = ''reason'' \<or> k = ''message''"
    and "''reason'' \<notin> fst ` set post" and "''message'' \<notin> fst ` set post"
  shows "\<exists>rep. status_report [(state, pre @ (k, v) # post)] = Inr rep \<and>
               map_of rep ''reason'' = Some v"
proof -
  from report_items_return [OF assms(1,2)] obtain rep where
    run: "for_each report_item (pre @ (k, v) # post)
            (AList.update ''state'' (PStr state) (fromkeys (map snd TRANSLATION_TABLE)))
          = Inr rep" by blast
  from report_items_reason [OF run assms(3,4,5)] run show ?thesis
    by (simp only: status_report_single) blast
qed

text \<open>
  An instance where the raw reason comes after the message, and wins.
\<close>

theorem reason_is_last_written_witness:
  "list_all (\<lambda>(k, v). known_key k)
     ([(''message'', PStr ''Back-off pulling image'')] @
      (''reason'', PStr ''ImagePullBackOff'') # []) \<and>
   container_is_str
     ([(''message'', PStr ''Back-off pulling image'')] @
      (''reason'', PStr ''ImagePullBackOff'') # []) \<and>
   ''reason'' \<notin> fst ` set ([] :: pydict) \<and> ''message'' \<notin> fst ` set ([] :: pydict) \<and>
   (\<exists>rep. status_report [(''waiting'',
        [(''message'', PStr ''Back-off pulling image'')] @
        (''reason'', PStr ''ImagePullBackOff'') # [])] = Inr rep \<and>
      map_of rep ''reason'' = Some (PStr ''ImagePullBackOff''))"
  using reason_is_last_written [of "[(''message'', PStr ''Back-off pulling image'')]"
      "''reason''" "PStr ''ImagePullBackOff''" "[]" "''waiting''"]
  by (simp add: known_key_def TRANSLATION_TABLE_def container_is_str_def)

text \<open>
  An input with both fields, the message last: the reported reason is the message.
\<close>

theorem message_overwrites_reason:
  "status_report
      [(''waiting'',
         [(''reason'', PStr ''ContainerCreating''), (''message'', PStr ''pulling image'')])]
   = Inr [(''exit_code'', PNone), (''finished_at'', PNone),
          (''reason'', PStr ''pulling image''), (''started_at'', PNone),
          (''container'', PNone), (''state'', PStr ''waiting'')]"
  by (simp add: status_report_def fromkeys_def TRANSLATION_TABLE_def)

text \<open>
  C10. When all nested field names are in the translation table and the value of
  \<^verbatim>\<open>containerID\<close>, if there is one, is a string, a report is returned and its keys
  are exactly \<^verbatim>\<open>state\<close>, \<^verbatim>\<open>exit_code\<close>, \<^verbatim>\<open>reason\<close>, \<^verbatim>\<open>started_at\<close>,
  \<^verbatim>\<open>finished_at\<close>, \<^verbatim>\<open>container\<close>. When a field name is outside the table, and the
  fields before it are as above, \<^verbatim>\<open>KeyError\<close> is raised for that name.
\<close>

theorem report_keys_or_key_error:
  "(set (map fst items) \<subseteq>
       {''exitCode'', ''finishedAt'', ''reason'', ''startedAt'', ''containerID'', ''message''} \<and>
     container_is_str items \<longrightarrow>
     (\<exists>rep. status_report [(state, items)] = Inr rep \<and>
            set (map fst rep) =
              {''state'', ''exit_code'', ''reason'', ''started_at'', ''finished_at'',
               ''container''})) \<and>
   (set (map fst pre) \<subseteq>
       {''exitCode'', ''finishedAt'', ''reason'', ''startedAt'', ''containerID'', ''message''} \<and>
     container_is_str pre \<and>
     k \<notin> {''exitCode'', ''finishedAt'', ''reason'', ''startedAt'', ''containerID'', ''message''}
     \<longrightarrow> status_report [(state, pre @ (k, v) # post)] = Inl (KeyError k))"
proof (intro conjI impI; elim conjE)
  assume keys: "set (map fst items) \<subseteq>
       {''exitCode'', ''finishedAt'', ''reason'', ''startedAt'', ''containerID'', ''message''}"
    and typed: "container_is_str items"
  from keys have "list_all (\<lambda>(k, v). known_key k) items"
    unfolding list_all_iff known_key_cases by auto
  from report_items_return [OF this typed] obtain rep where
    run: "for_each report_item items
            (AList.update ''state'' (PStr state) (fromkeys (map snd TRANSLATION_TABLE)))
          = Inr rep" by blast
  from report_items_keys [OF run initial_report_keys]
  have "set (map fst rep) = REPORT_KEYS" by simp
  with run show "\<exists>rep. status_report [(state, items)] = Inr rep \<and>
      set (map fst rep) =
        {''state'', ''exit_code'', ''reason'', ''started_at'', ''finished_at'', ''container''}"
    unfolding status_report_single REPORT_KEYS_def by blast
next
  assume keys: "set (map fst pre) \<subseteq>
       {''exitCode'', ''finishedAt'', ''reason'', ''startedAt'', ''containerID'', ''message''}"
    and typed: "container_is_str pre"
    and k: "k \<notin> {''exitCode'', ''finishedAt'', ''reason'', ''startedAt'', ''containerID'',
                 ''message''}"
  from keys have known: "list_all (\<lambda>(k, v). known_key k) pre"
    unfolding list_all_iff known_key_cases by auto
  from k have "\<not> known_key k" unfolding known_key_cases .
  from report_items_unknown_key [OF known typed this]
  show "status_report [(state, pre @ (k, v) # post)] = Inl (KeyError k)"
    by (simp only: status_report_single)
qed

text \<open>
  An instance of each part: a terminated state with known fields, and the same fields
  followed by \<^verbatim>\<open>signal\<close>.
\<close>

theorem report_keys_or_key_error_witness:
  "set (map fst [(''exitCode'', PInt 0), (''containerID'', PStr ''docker://abc123'')]) \<subseteq>
     {''exitCode'', ''finishedAt'', ''reason'', ''startedAt'', ''containerID'', ''message''} \<and>
   container_is_str [(''exitCode'', PInt 0), (''containerID'', PStr ''docker://abc123'')] \<and>
   (\<exists>rep. status_report [(''terminated'',
        [(''exitCode'', PInt 0), (''containerID'', PStr ''docker://abc123'')])] = Inr rep \<and>
      set (map fst rep) =
        {''state'', ''exit_code'', ''reason'', ''started_at'', ''finished_at'', ''container''}) \<and>
   ''signal'' \<notin>
     {''exitCode'', ''finishedAt'', ''reason'', ''startedAt'', ''containerID'', ''message''} \<and>
   status_report [(''terminated'',
        [(''exitCode'', PInt 0), (''containerID'', PStr ''docker://abc123'')] @
        (''signal'', PInt 9) # [(''reason'', PStr ''Error'')])] = Inl (KeyError ''signal'')"
  using report_keys_or_key_error [of
      "[(''exitCode'', PInt 0), (''containerID'', PStr ''docker://abc123'')]" "''terminated''"
      "[(''exitCode'', PInt 0), (''containerID'', PStr ''docker://abc123'')]"
      "''signal''" "PInt 9" "[(''reason'', PStr ''Error'')]"]
  by (simp add: container_is_str_def)

text \<open>
  Field names from the table are not enough: a \<^verbatim>\<open>containerID\<close> that is not a string
  raises \<^verbatim>\<open>AttributeError\<close>.
\<close>

theorem container_id_not_a_string:
  "set (map fst [(''containerID'', PInt 12)]) \<subseteq>
     {''exitCode'', ''finishedAt'', ''reason'', ''startedAt'', ''containerID'', ''message''} \<and>
   status_report [(''running'', [(''containerID'', PInt 12)])] = Inl AttributeError"
  by (simp add: status_report_def fromkeys_def TRANSLATION_TABLE_def)

text \<open>
  C2. The translation of an exit code 137 with reason \<^verbatim>\<open>Error\<close> into
  \<^verbatim>\<open>TimeoutKilled\<close> is done by \<^verbatim>\<open>get_pod_status\<close>, before \<^verbatim>\<open>_status_report\<close>.
  Take a pod whose first container state is the single-key dictionary
  \<^verbatim>\<open>{"terminated": fields}\<close>, where \<open>fields\<close> has exit code 137 and a reason \<open>r\<close>,
  all its field names are in the translation table, its \<^verbatim>\<open>containerID\<close>, if there is
  one, is a string, and no \<^verbatim>\<open>message\<close> field follows the reason. Then the two
  functions in sequence return a report, and its reason is \<^verbatim>\<open>TimeoutKilled\<close> when
  \<open>r\<close> is \<^verbatim>\<open>Error\<close> and \<open>r\<close> itself otherwise.
\<close>

theorem timeout_killed_reason:
  assumes "distinct (map fst (pre @ (''reason'', r) # post))"
    and "map_of (pre @ (''reason'', r) # post) ''exitCode'' = Some (PInt 137)"
    and "list_all (\<lambda>(k, v). known_key k) (pre @ (''reason'', r) # post)"
    and "container_is_str (pre @ (''reason'', r) # post)"
    and "''message'' \<notin> fst ` set post"
  shows "\<exists>rep. get_pod_status_report
                 (Pod (Some ([(''terminated'', pre @ (''reason'', r) # post)] # others)))
               = Inr rep \<and>
               map_of rep ''reason'' =
                 Some (if r = PStr ''Error'' then PStr ''TimeoutKilled'' else r)"
proof -
  let ?items = "pre @ (''reason'', r) # post"
  let ?r' = "if r = PStr ''Error'' then PStr ''TimeoutKilled'' else r"
  let ?items' = "pre @ (''reason'', ?r') # post"
  from assms(1) have fresh: "''reason'' \<notin> fst ` set pre" "''reason'' \<notin> fst ` set post"
    by auto
  have look: "map_of ?items ''reason'' = Some r"
    by (simp only: map_of_append_fresh [OF fresh(1)]) simp
  have upd: "AList.update ''reason'' (PStr ''TimeoutKilled'') (pre @ (''reason'', x) # post)
               = pre @ (''reason'', PStr ''TimeoutKilled'') # post" for x
    using fresh(1) by (simp add: update_append_fresh)
  have status: "get_pod_status (Pod (Some ([(''terminated'', ?items)] # others)))
                  = Inr [(''terminated'', ?items')]"
    using assms(2) look upd by (simp add: get_pod_status_def del: map_of_append)
  have known: "list_all (\<lambda>(k, v). known_key k) ?items'"
    using assms(3) by simp
  have typed: "container_is_str ?items'"
    using assms(4) by (simp add: container_is_str_def)
  from report_items_return [OF known typed] obtain rep where
    run: "for_each report_item ?items'
            (AList.update ''state'' (PStr ''terminated'') (fromkeys (map snd TRANSLATION_TABLE)))
          = Inr rep" by blast
  from report_items_reason [OF run _ fresh(2) assms(5)]
  have reason: "map_of rep ''reason'' = Some ?r'" by simp
  from run have "status_report [(''terminated'', ?items')] = Inr rep"
    by (simp only: status_report_single)
  with status reason show ?thesis by (simp add: get_pod_status_report_def)
qed

text \<open>
  Instances with the reasons \<^verbatim>\<open>Error\<close> and \<^verbatim>\<open>OOMKilled\<close>.
\<close>

theorem timeout_killed_reason_witness:
  "distinct (map fst ([(''exitCode'', PInt 137)] @ (''reason'', PStr ''Error'') #
                      [(''finishedAt'', PStr ''2018-11-01T10:00:00Z'')])) \<and>
   map_of ([(''exitCode'', PInt 137)] @ (''reason'', PStr ''Error'') #
           [(''finishedAt'', PStr ''2018-11-01T10:00:00Z'')]) ''exitCode'' = Some (PInt 137) \<and>
   list_all (\<lambda>(k, v). known_key k)
     ([(''exitCode'', PInt 137)] @ (''reason'', PStr ''Error'') #
      [(''finishedAt'', PStr ''2018-11-01T10:00:00Z'')]) \<and>
   container_is_str
     ([(''exitCode'', PInt 137)] @ (''reason'', PStr ''Error'') #
      [(''finishedAt'', PStr ''2018-11-01T10:00:00Z'')]) \<and>
   ''message'' \<notin> fst ` set [(''finishedAt'', PStr ''2018-11-01T10:00:00Z'')] \<and>
   (\<exists>rep. get_pod_status_report (Pod (Some
        ([(''terminated'', [(''exitCode'', PInt 137)] @ (''reason'', PStr ''Error'') #
             [(''finishedAt'', PStr ''2018-11-01T10:00:00Z'')])] # []))) = Inr rep \<and>
      map_of rep ''reason'' = Some (PStr ''TimeoutKilled'')) \<and>
   (\<exists>rep. get_pod_status_report (Pod (Some
        ([(''terminated'', [(''exitCode'', PInt 137)] @ (''reason'', PStr ''OOMKilled'') #
             [(''finishedAt'', PStr ''2018-11-01T10:00:00Z'')])] # []))) = Inr rep \<and>
      map_of rep ''reason'' = Some (PStr ''OOMKilled''))"
  using
    timeout_killed_reason [of "[(''exitCode'', PInt 137)]" "PStr ''Error''"
      "[(''finishedAt'', PStr ''2018-11-01T10:00:00Z'')]" "[]"]
    timeout_killed_reason [of "[(''exitCode'', PInt 137)]" "PStr ''OOMKilled''"
      "[(''finishedAt'', PStr ''2018-11-01T10:00:00Z'')]" "[]"]
  by (simp add: known_key_def TRANSLATION_TABLE_def container_is_str_def)

text \<open>
  A reason other than \<^verbatim>\<open>Error\<close> does not always pass through: with a message listed
  after it, the report carries the message, as in any other state.
\<close>

theorem oom_reason_overwritten:
  "get_pod_status_report (Pod (Some
      [[(''terminated'',
          [(''exitCode'', PInt 137), (''reason'', PStr ''OOMKilled''),
           (''message'', PStr ''killed'')])]]))
   = Inr [(''exit_code'', PInt 137), (''finished_at'', PNone), (''reason'', PStr ''killed''),
          (''started_at'', PNone), (''container'', PNone), (''state'', PStr ''terminated'')]"
  by (simp add: get_pod_status_report_def get_pod_status_def status_report_def fromkeys_def
      TRANSLATION_TABLE_def)

text \<open>
  The same input with the reason \<^verbatim>\<open>Error\<close>: \<^verbatim>\<open>get_pod_status\<close> writes
  \<^verbatim>\<open>TimeoutKilled\<close> (lines 364-370, whose comment says these kills are reported to the
  user), and the message then takes its place in the report.
\<close>

lemma timeout_reason_overwritten:
  "get_pod_status_report (Pod (Some
      [[(''terminated'',
          [(''exitCode'', PInt 137), (''reason'', PStr ''Error''),
           (''message'', PStr ''killed'')])]]))
   = Inr [(''exit_code'', PInt 137), (''finished_at'', PNone), (''reason'', PStr ''killed''),
          (''started_at'', PNone), (''container'', PNone), (''state'', PStr ''terminated'')]"
  by (simp add: get_pod_status_report_def get_pod_status_def status_report_def fromkeys_def
      TRANSLATION_TABLE_def)

text \<open>
  \<^verbatim>\<open>_status_report\<close> by itself copies the reason: on the state \<^verbatim>\<open>get_pod_status\<close>
  has not been through, exit code 137 with reason \<^verbatim>\<open>Error\<close> is reported as
  \<^verbatim>\<open>Error\<close>.
\<close>

lemma status_report_keeps_error_reason:
  "status_report [(''terminated'', [(''exitCode'', PInt 137), (''reason'', PStr ''Error'')])]
   = Inr [(''exit_code'', PInt 137), (''finished_at'', PNone), (''reason'', PStr ''Error''),
          (''started_at'', PNone), (''container'', PNone), (''state'', PStr ''terminated'')]"
  by (simp add: status_report_def fromkeys_def TRANSLATION_TABLE_def)

end
